theory Spec2Isabelle
  imports
    Complex_Main
    "HOL-Library.Char_ord"
    "HOL-Library.List_Lexorder"
    "HOL-Library.Product_Lexorder"
begin

section \<open>Shotcraft inventory: floats, cells, numeric coercion\<close>

text \<open>
  The program (\<^verbatim>\<open>src/app.py\<close>) reads two worksheets into pandas data frames, joins
  them, and computes per-component requirements.  The embedding follows the functions
  \<^verbatim>\<open>read_ws_df\<close>, \<^verbatim>\<open>load_data\<close>, \<^verbatim>\<open>write_onhand\<close> and \<^verbatim>\<open>compute\<close>.

  A float64 is \<open>Fin r\<close>, the float of value \<open>r\<close>, an infinity, or NaN (also the pandas
  marker of a missing value); the two zeros are one value.  Float arithmetic is not part
  of the repository: the rounding of an exact result to a float (to an infinity on
  overflow) is the parameter \<open>rnd\<close> of every function that computes, and the statements
  below hold for every \<open>rnd\<close>.  The special cases of the operations (infinities, NaN) are
  written out.
\<close>

datatype fl = Fin real | PInf | NInf | NaN

type_synonym rounding = "real \<Rightarrow> fl"

text \<open>The comparisons \<^verbatim>\<open>x > 0\<close> and \<^verbatim>\<open>x < 0\<close>; both are false on NaN.\<close>

fun gt0 :: "fl \<Rightarrow> bool" where
  "gt0 (Fin r) = (0 < r)"
| "gt0 PInf = True"
| "gt0 NInf = False"
| "gt0 NaN = False"

fun lt0 :: "fl \<Rightarrow> bool" where
  "lt0 (Fin r) = (r < 0)"
| "lt0 PInf = False"
| "lt0 NInf = True"
| "lt0 NaN = False"


fun fmul :: "rounding \<Rightarrow> fl \<Rightarrow> fl \<Rightarrow> fl" where
  "fmul rnd NaN y = NaN"
| "fmul rnd x NaN = NaN"
| "fmul rnd (Fin a) (Fin b) = rnd (a * b)"
| "fmul rnd x y =
     (if x = Fin 0 \<or> y = Fin 0 then NaN
      else if gt0 x = gt0 y then PInf else NInf)"

fun fsub :: "rounding \<Rightarrow> fl \<Rightarrow> fl \<Rightarrow> fl" where
  "fsub rnd NaN y = NaN"
| "fsub rnd x NaN = NaN"
| "fsub rnd (Fin a) (Fin b) = rnd (a - b)"
| "fsub rnd PInf PInf = NaN"
| "fsub rnd NInf NInf = NaN"
| "fsub rnd PInf y = PInf"
| "fsub rnd NInf y = NInf"
| "fsub rnd x PInf = NInf"
| "fsub rnd x NInf = PInf"

text \<open>
  Float division does not raise in pandas: a zero divisor gives an infinity or NaN (the
  sign of a zero divisor is not represented; it is taken positive).
\<close>

fun fdiv :: "rounding \<Rightarrow> fl \<Rightarrow> fl \<Rightarrow> fl" where
  "fdiv rnd NaN y = NaN"
| "fdiv rnd x NaN = NaN"
| "fdiv rnd (Fin a) (Fin b) =
     (if b \<noteq> 0 then rnd (a / b)
      else if a = 0 then NaN
      else if 0 < a then PInf else NInf)"
| "fdiv rnd (Fin a) y = Fin 0"
| "fdiv rnd x (Fin b) = (if gt0 x = (0 \<le> b) then PInf else NInf)"
| "fdiv rnd x y = NaN"

text \<open>
  A data-frame cell is a number or a piece of text.  Numbers are floats: an integer cell
  stands as the float of its value.
\<close>

datatype cell = Flt fl | Txt string

text \<open>
  \<^verbatim>\<open>pd.to_numeric\<close> parses text with a parser that is not part of the repository; it is a
  parameter: \<open>P s = None\<close> when \<open>s\<close> is not numeric, \<open>P s = Some NaN\<close> for the texts
  pandas reads as a missing value (the empty string among them).  The two modes of
  \<^verbatim>\<open>pd.to_numeric\<close> get a parser each: \<open>P\<close> for \<^verbatim>\<open>errors="coerce"\<close>, \<open>Pi\<close> for
  \<^verbatim>\<open>errors="ignore"\<close>.
\<close>

type_synonym parser = "string \<Rightarrow> fl option"

text \<open>\<^verbatim>\<open>pd.to_numeric(col, errors="coerce")\<close>, cell by cell: what cannot be parsed is NaN.\<close>

definition to_numeric_coerce :: "parser \<Rightarrow> cell \<Rightarrow> fl" where
  "to_numeric_coerce P c =
     (case c of
        Flt x \<Rightarrow> x
      | Txt s \<Rightarrow> (case P s of Some x \<Rightarrow> x | None \<Rightarrow> NaN))"

text \<open>\<^verbatim>\<open>.fillna(d)\<close> on one value.\<close>

definition fillna :: "fl \<Rightarrow> fl \<Rightarrow> fl" where
  "fillna d x = (if x = NaN then d else x)"

text \<open>\<^verbatim>\<open>pd.to_numeric(col, errors="coerce").fillna(0.0)\<close>, as lines 174, 175 and 166 apply it.\<close>

definition numeric0 :: "parser \<Rightarrow> cell \<Rightarrow> fl" where
  "numeric0 P c = fillna (Fin 0) (to_numeric_coerce P c)"

section \<open>The inventory calculator: \<^verbatim>\<open>compute\<close>\<close>

text \<open>
  \<open>comps\<close> has the columns Component, Per_Case and UOM; it is a list of rows.  \<open>onhand\<close> has
  the column Component and, normally, On_Hand; line 173 also provides for a frame without
  On_Hand.
\<close>

record comp_row =
  comp_Component :: cell
  comp_Per_Case :: cell
  comp_UOM :: cell

datatype onhand_df =
  OnHand "(cell \<times> cell) list"
  | NoOnHandColumn "cell list"

fun onhand_Component :: "onhand_df \<Rightarrow> cell list" where
  "onhand_Component (OnHand oh) = map fst oh"
| "onhand_Component (NoOnHandColumn ks) = ks"

text \<open>The six columns of \<open>display\<close> and \<open>shortages\<close>.\<close>

record row =
  Component :: cell
  UOM :: cell
  On_Hand :: fl
  Per_Case :: fl
  Required :: fl
  Remaining :: fl

record result =
  display :: "row list"
  max_sellable :: int
  shortages :: "row list"

text \<open>
  What the program can raise or stop with: the merge of line 172 (ValueError),
  \<^verbatim>\<open>math.floor\<close> of line 181 (OverflowError on an infinity, ValueError on NaN), the sort of
  line 186 and \<^verbatim>\<open>pd.to_numeric\<close> of line 125 (TypeError), a frame whose rows do not fit
  its header, a missing column, a worksheet that cannot be opened, the schema check.
\<close>

datatype error =
  ValueError_merge
  | OverflowError
  | ValueError_floor
  | TypeError_sort
  | TypeError_to_numeric
  | ValueError_frame
  | KeyError string
  | WorksheetNotFound string
  | SchemaError "string list"

text \<open>
  The merge first compares the kinds of the two Component columns: a numeric column
  (every cell a number) against a column that holds text raises ValueError, unless one of
  the two frames has no rows.  A column whose cells are all numbers is taken to be a
  float64 column.
\<close>

fun is_Flt :: "cell \<Rightarrow> bool" where
  "is_Flt (Flt x) = True"
| "is_Flt (Txt s) = False"

fun is_Txt :: "cell \<Rightarrow> bool" where
  "is_Txt (Flt x) = False"
| "is_Txt (Txt s) = True"

definition merge_raises :: "cell list \<Rightarrow> cell list \<Rightarrow> bool" where
  "merge_raises lk rk =
     (lk \<noteq> [] \<and> rk \<noteq> [] \<and>
      (list_all is_Flt lk \<and> list_ex is_Txt rk \<or> list_ex is_Txt lk \<and> list_all is_Flt rk))"

text \<open>
  \<^verbatim>\<open>comps.merge(right, on="Component", how="left")\<close>: the rows of \<open>comps\<close> in their order,
  each once per right row with an equal key (in the right frame's order), or once with no
  partner when there is none.
\<close>

definition merge_left :: "comp_row list \<Rightarrow> (cell \<times> 'v) list \<Rightarrow> (comp_row \<times> 'v option) list" where
  "merge_left comps right =
     concat (map (\<lambda>c.
        case filter (\<lambda>kv. fst kv = comp_Component c) right of
          [] \<Rightarrow> [(c, None)]
        | ms \<Rightarrow> map (\<lambda>kv. (c, Some (snd kv))) ms) comps)"

text \<open>Lines 172-173: the merged frame with its On_Hand column, still a raw cell.\<close>

fun merged :: "comp_row list \<Rightarrow> onhand_df \<Rightarrow> (comp_row \<times> cell) list" where
  "merged comps (OnHand oh) =
     map (\<lambda>(c, v). (c, case v of None \<Rightarrow> Flt NaN | Some x \<Rightarrow> x)) (merge_left comps oh)"
| "merged comps (NoOnHandColumn ks) =
     map (\<lambda>(c, v). (c, Flt (Fin 0))) (merge_left comps (map (\<lambda>k. (k, ())) ks))"

text \<open>Lines 174-177 on one merged row; \<open>cases\<close> is \<^verbatim>\<open>float(cases)\<close>.\<close>

definition mk_row :: "rounding \<Rightarrow> parser \<Rightarrow> fl \<Rightarrow> comp_row \<times> cell \<Rightarrow> row" where
  "mk_row rnd P cases cv =
     (let per_case = numeric0 P (comp_Per_Case (fst cv));
          on_hand = numeric0 P (snd cv);
          required = fmul rnd per_case cases
      in \<lparr>Component = comp_Component (fst cv), UOM = comp_UOM (fst cv),
          On_Hand = on_hand, Per_Case = per_case,
          Required = required, Remaining = fsub rnd on_hand required\<rparr>)"

text \<open>
  \<^verbatim>\<open>Series.min\<close> skips NaN and is NaN when nothing is left; \<^verbatim>\<open>math.floor\<close> raises on an
  infinity and on NaN.
\<close>

fun fmin :: "fl \<Rightarrow> fl \<Rightarrow> fl" where
  "fmin NaN y = y"
| "fmin x NaN = x"
| "fmin NInf y = NInf"
| "fmin x NInf = NInf"
| "fmin PInf y = y"
| "fmin x PInf = x"
| "fmin (Fin a) (Fin b) = Fin (min a b)"

definition series_min :: "fl list \<Rightarrow> fl" where
  "series_min xs = fold fmin xs NaN"

fun math_floor :: "fl \<Rightarrow> error + int" where
  "math_floor (Fin r) = Inr \<lfloor>r\<rfloor>"
| "math_floor PInf = Inl OverflowError"
| "math_floor NInf = Inl OverflowError"
| "math_floor NaN = Inl ValueError_floor"

text \<open>
  \<^verbatim>\<open>sort_values("Component")\<close>: numbers by value, text by code points, NaN last; text
  cannot be compared with a number, which raises TypeError.  The model sorts stably;
  pandas leaves the order of equal names open, and no statement below depends on it.
\<close>

fun sort_rank :: "cell \<Rightarrow> nat \<times> real \<times> string" where
  "sort_rank (Flt NInf) = (0, 0, [])"
| "sort_rank (Flt (Fin r)) = (1, r, [])"
| "sort_rank (Flt PInf) = (2, 0, [])"
| "sort_rank (Txt s) = (3, 0, s)"
| "sort_rank (Flt NaN) = (4, 0, [])"

definition sort_raises :: "cell list \<Rightarrow> bool" where
  "sort_raises ks = (list_ex is_Txt ks \<and> list_ex (\<lambda>k. is_Flt k \<and> k \<noteq> Flt NaN) ks)"

definition sort_values :: "row list \<Rightarrow> error + row list" where
  "sort_values df =
     (if sort_raises (map Component df) then Inl TypeError_sort
      else Inr (sort_key (\<lambda>r. sort_rank (Component r)) df))"

text \<open>Lines 172-177: the frame \<^verbatim>\<open>df\<close> with its computed columns.\<close>

definition df_rows :: "rounding \<Rightarrow> parser \<Rightarrow> comp_row list \<Rightarrow> onhand_df \<Rightarrow> fl \<Rightarrow> row list" where
  "df_rows rnd P comps onhand cases = map (mk_row rnd P cases) (merged comps onhand)"

text \<open>Line 179, and the quotients of line 181.\<close>

definition candidates :: "row list \<Rightarrow> row list" where
  "candidates df = filter (\<lambda>r. gt0 (Per_Case r)) df"

definition ratios :: "rounding \<Rightarrow> row list \<Rightarrow> fl list" where
  "ratios rnd cs = map (\<lambda>r. fdiv rnd (On_Hand r) (Per_Case r)) cs"

definition compute ::
  "rounding \<Rightarrow> parser \<Rightarrow> comp_row list \<Rightarrow> onhand_df \<Rightarrow> fl \<Rightarrow> error + result" where
  "compute rnd P comps onhand cases =
     (if merge_raises (map comp_Component comps) (onhand_Component onhand)
      then Inl ValueError_merge
      else
        let df = df_rows rnd P comps onhand cases
        in (case (if candidates df \<noteq> []
                  then math_floor (series_min (ratios rnd (candidates df)))
                  else Inr 0) of
              Inl e \<Rightarrow> Inl e
            | Inr m \<Rightarrow>
               (case sort_values df of
                  Inl e \<Rightarrow> Inl e
                | Inr d \<Rightarrow>
                    Inr \<lparr>display = d, max_sellable = m,
                         shortages = filter (\<lambda>r. lt0 (Remaining r)) df\<rparr>)))"

section \<open>The remote table store\<close>

text \<open>
  The spreadsheet is an external service, used through \<^verbatim>\<open>worksheet\<close>,
  \<^verbatim>\<open>get_all_values\<close>, \<^verbatim>\<open>clear\<close> and \<^verbatim>\<open>update\<close>.  A sheet cell holds a number or a
  text; a worksheet is the grid of values the service returns for it, row by row, and a
  spreadsheet maps worksheet names to grids.  \<^verbatim>\<open>get_all_values\<close> returns the formatted
  text of every cell (how the service prints a number is the parameter \<open>R\<close>) and pads
  every row, the first included, with empty texts to the width of the widest row.
  \<^verbatim>\<open>update\<close> writes a grid from the top-left corner and leaves every cell it does not
  cover as it was.
\<close>

datatype sheet_value = Number fl | Text string

type_synonym worksheet = "sheet_value list list"

type_synonym spreadsheet = "string \<Rightarrow> worksheet option"

definition formatted :: "(fl \<Rightarrow> string) \<Rightarrow> sheet_value \<Rightarrow> string" where
  "formatted R v = (case v of Number x \<Rightarrow> R x | Text s \<Rightarrow> s)"

definition fill_gaps :: "string list list \<Rightarrow> string list list" where
  "fill_gaps L =
     (let max_cols = fold max (map length L) 0
      in map (\<lambda>row. row @ replicate (max_cols - length row) []) L)"

definition get_all_values :: "(fl \<Rightarrow> string) \<Rightarrow> worksheet \<Rightarrow> string list list" where
  "get_all_values R ws = fill_gaps (map (map (formatted R)) ws)"




section \<open>The data loader: \<^verbatim>\<open>read_ws_df\<close> and \<^verbatim>\<open>load_data\<close>\<close>

text \<open>A data frame read from a sheet: its columns in order, each with its name.\<close>

type_synonym dataframe = "(string \<times> cell list) list"

definition columns :: "dataframe \<Rightarrow> string list" where
  "columns df = map fst df"

text \<open>\<^verbatim>\<open>df[c]\<close>: a missing column raises KeyError.\<close>

definition column :: "dataframe \<Rightarrow> string \<Rightarrow> error + cell list" where
  "column df c = (case map_of df c of Some xs \<Rightarrow> Inr xs | None \<Rightarrow> Inl (KeyError c))"

text \<open>
  \<^verbatim>\<open>pd.to_numeric(col, errors="ignore")\<close> on a column of text: the numbers when every cell
  parses, the column as it is otherwise.
\<close>

definition to_numeric_ignore :: "parser \<Rightarrow> string list \<Rightarrow> cell list" where
  "to_numeric_ignore Pi col =
     (if list_all (\<lambda>s. Pi s \<noteq> None) col
      then map (\<lambda>s. case Pi s of Some x \<Rightarrow> Flt x | None \<Rightarrow> Txt s) col
      else map Txt col)"

text \<open>
  Lines 118-126.  \<^verbatim>\<open>pd.DataFrame\<close> raises when the rows do not have the width of the
  header (\<^verbatim>\<open>get_all_values\<close> returns rows of one width, so that a worksheet never does
  this).  With a repeated header \<^verbatim>\<open>df[c]\<close> is a frame, not a column, and
  \<^verbatim>\<open>pd.to_numeric\<close> raises TypeError.
\<close>

definition read_ws_df :: "parser \<Rightarrow> string list list \<Rightarrow> error + dataframe" where
  "read_ws_df Pi vals =
     (case vals of
        [] \<Rightarrow> Inr []
      | header # data \<Rightarrow>
          if \<not> list_all (\<lambda>r. length r = length header) data then Inl ValueError_frame
          else if \<not> distinct header then Inl TypeError_to_numeric
          else Inr (map (\<lambda>j. (header ! j, to_numeric_ignore Pi (map (\<lambda>r. r ! j) data)))
                        [0..<length header]))"

text \<open>Lines 144-161: from the two frames to \<open>comps\<close> and \<open>onhand\<close>.\<close>

definition load_frames :: "dataframe \<Rightarrow> dataframe \<Rightarrow> error + comp_row list \<times> onhand_df" where
  "load_frames formula inventory =
     (if \<not> {''Component'', ''Per_Case''} \<subseteq> set (columns formula)
      then Inl (SchemaError (columns formula))
      else
        (case column formula ''Component'' of Inl e \<Rightarrow> Inl e | Inr cs \<Rightarrow>
        (case column formula ''Per_Case'' of Inl e \<Rightarrow> Inl e | Inr ps \<Rightarrow>
        (case (if ''UOM'' \<in> set (columns formula) then column formula ''UOM''
               else Inr (map (\<lambda>c. Txt []) cs)) of Inl e \<Rightarrow> Inl e | Inr us \<Rightarrow>
        (case (if {''Component'', ''On_Hand''} \<subseteq> set (columns inventory)
               then (case column inventory ''Component'' of Inl e \<Rightarrow> Inl e | Inr ks \<Rightarrow>
                    (case column inventory ''On_Hand'' of Inl e \<Rightarrow> Inl e | Inr vs \<Rightarrow>
                     Inr (zip ks vs)))
               else Inr (map (\<lambda>c. (c, Flt (Fin 0))) cs)) of Inl e \<Rightarrow> Inl e | Inr onhand \<Rightarrow>
         Inr (map (\<lambda>(c, p, u). \<lparr>comp_Component = c, comp_Per_Case = p, comp_UOM = u\<rparr>)
                  (zip cs (zip ps us)),
              OnHand onhand))))))"

text \<open>
  Lines 128-161.  \<^verbatim>\<open>st.stop()\<close> ends the run: the worksheet that cannot be opened and the
  schema check are errors of the result.
\<close>

definition load_data ::
  "parser \<Rightarrow> (fl \<Rightarrow> string) \<Rightarrow> string \<Rightarrow> string \<Rightarrow> spreadsheet
     \<Rightarrow> error + comp_row list \<times> onhand_df" where
  "load_data Pi R FORMULA_WS INVENTORY_WS sh =
     (case sh FORMULA_WS of None \<Rightarrow> Inl (WorksheetNotFound FORMULA_WS) | Some fws \<Rightarrow>
     (case sh INVENTORY_WS of None \<Rightarrow> Inl (WorksheetNotFound INVENTORY_WS) | Some iws \<Rightarrow>
     (case read_ws_df Pi (get_all_values R fws) of Inl e \<Rightarrow> Inl e | Inr formula \<Rightarrow>
     (case read_ws_df Pi (get_all_values R iws) of Inl e \<Rightarrow> Inl e | Inr inventory \<Rightarrow>
      load_frames formula inventory))))"

section \<open>Writeback: \<^verbatim>\<open>write_onhand\<close>\<close>



section \<open>Statements of the specification\<close>

text \<open>
  The specification's inventory row of a component and an on-hand quantity:
  required is per-case times cases, remaining is on-hand minus required (in floats).
\<close>

definition inventory_row :: "rounding \<Rightarrow> parser \<Rightarrow> fl \<Rightarrow> comp_row \<Rightarrow> fl \<Rightarrow> row" where
  "inventory_row rnd P cases c on_hand =
     \<lparr>Component = comp_Component c, UOM = comp_UOM c, On_Hand = on_hand,
      Per_Case = numeric0 P (comp_Per_Case c),
      Required = fmul rnd (numeric0 P (comp_Per_Case c)) cases,
      Remaining = fsub rnd on_hand (fmul rnd (numeric0 P (comp_Per_Case c)) cases)\<rparr>"

text \<open>The quotient of on-hand by per-case of a row, as line 181 computes it.\<close>

definition row_quotient :: "rounding \<Rightarrow> row \<Rightarrow> fl" where
  "row_quotient rnd r = fdiv rnd (On_Hand r) (Per_Case r)"

text \<open>The number of \<open>onhand\<close> rows that carry the name of a component.\<close>

definition matches :: "comp_row \<Rightarrow> (cell \<times> 'v) list \<Rightarrow> nat" where
  "matches c right = length (filter (\<lambda>kv. fst kv = comp_Component c) right)"



section \<open>Example data\<close>

text \<open>
  For the concrete instances below: a rounding that is exact below the overflow
  threshold (it agrees with float64 wherever the exact result is a float, and on
  overflow; the instances use it only there), a small parser, a printer of numbers, and
  the two components of the specification's worked example.
\<close>

definition rnd_exact :: rounding where
  "rnd_exact x = (if 2 ^ 1024 \<le> x then PInf else if x \<le> - (2 ^ 1024) then NInf else Fin x)"


definition ex_P :: parser where
  "ex_P s =
     (if s = ''10'' then Some (Fin 10) else if s = ''2'' then Some (Fin 2)
      else if s = ''5'' then Some (Fin 5) else if s = ''0'' then Some (Fin 0)
      else if s = ''7'' then Some (Fin 7)
      else if s = [] then Some NaN else None)"

definition ex_R :: "fl \<Rightarrow> string" where
  "ex_R x =
     (if x = Fin 10 then ''10'' else if x = Fin 2 then ''2'' else if x = Fin 5 then ''5''
      else if x = Fin 7 then ''7'' else if x = Fin 1000 then ''1,000'' else ''0'')"

definition ex_formula :: worksheet where
  "ex_formula =
     [[Text ''Component'', Text ''Per_Case''],
      [Text ''A'', Number (Fin 2)],
      [Text ''B'', Number (Fin 5)]]"

definition ex_sh :: spreadsheet where
  "ex_sh = [''FORMULA'' \<mapsto> ex_formula, ''INVENTORY'' \<mapsto> [[Text ''Notes''], [Text ''stale'']]]"

definition ex_A :: comp_row where
  "ex_A = \<lparr>comp_Component = Txt ''A'', comp_Per_Case = Flt (Fin 2), comp_UOM = Txt ''kg''\<rparr>"

definition ex_B :: comp_row where
  "ex_B = \<lparr>comp_Component = Txt ''B'', comp_Per_Case = Flt (Fin 5), comp_UOM = Txt ''kg''\<rparr>"

definition ex_comps :: "comp_row list" where
  "ex_comps = [ex_A, ex_B]"

definition ex_onhand :: "(cell \<times> cell) list" where
  "ex_onhand = [(Txt ''A'', Txt ''10''), (Txt ''B'', Flt (Fin 30))]"

section \<open>The calculator: minimum, floor, sort\<close>

lemma fmin_NaN_iff: "fmin x y = NaN \<longleftrightarrow> x = NaN \<and> y = NaN"
  by (cases x; cases y) simp_all

lemma fmin_cases: "fmin x y = x \<or> fmin x y = y"
  by (cases x; cases y) (simp_all add: min_def)





lemma fold_fmin_NaN_iff:
  "fold fmin xs acc = NaN \<longleftrightarrow> acc = NaN \<and> (\<forall>x\<in>set xs. x = NaN)"
  by (induction xs arbitrary: acc) (auto simp: fmin_NaN_iff)

lemma fold_fmin_mem:
  "fold fmin xs acc = acc \<or> fold fmin xs acc \<in> set xs"
proof (induction xs arbitrary: acc)
  case Nil
  show ?case by simp
next
  case (Cons x xs)
  from Cons [of "fmin x acc"] fmin_cases [of x acc] show ?case by auto
qed



lemma series_min_NaN_iff: "series_min xs = NaN \<longleftrightarrow> (\<forall>x\<in>set xs. x = NaN)"
  by (simp add: series_min_def fold_fmin_NaN_iff)

lemma series_min_mem: "series_min xs \<noteq> NaN \<Longrightarrow> series_min xs \<in> set xs"
  using fold_fmin_mem [of xs NaN] by (auto simp: series_min_def)


lemma math_floor_Inr: "math_floor x = Inr m \<longleftrightarrow> (\<exists>r. x = Fin r \<and> m = \<lfloor>r\<rfloor>)"
  by (cases x) auto

lemma math_floor_Inl:
  "math_floor x = Inl e \<longleftrightarrow>
     (x = PInf \<or> x = NInf) \<and> e = OverflowError \<or> x = NaN \<and> e = ValueError_floor"
  by (cases x) auto

lemma sort_values_Inr:
  "sort_values df = Inr d \<longleftrightarrow>
     \<not> sort_raises (map Component df) \<and> d = sort_key (\<lambda>r. sort_rank (Component r)) df"
  by (auto simp: sort_values_def)

lemma sort_values_Inl:
  "sort_values df = Inl e \<longleftrightarrow> sort_raises (map Component df) \<and> e = TypeError_sort"
  by (auto simp: sort_values_def)

lemma sort_values_set: "sort_values df = Inr d \<Longrightarrow> set d = set df"
  by (auto simp: sort_values_Inr)

lemma sort_values_length: "sort_values df = Inr d \<Longrightarrow> length d = length df"
  by (auto simp: sort_values_Inr)

text \<open>What a returned result is.\<close>

lemma compute_Inr_iff:
  "compute rnd P comps onhand cases = Inr res \<longleftrightarrow>
     \<not> merge_raises (map comp_Component comps) (onhand_Component onhand) \<and>
     (if candidates (df_rows rnd P comps onhand cases) = [] then max_sellable res = 0
      else \<exists>m. series_min (ratios rnd (candidates (df_rows rnd P comps onhand cases))) = Fin m \<and>
             max_sellable res = \<lfloor>m\<rfloor>) \<and>
     sort_values (df_rows rnd P comps onhand cases) = Inr (display res) \<and>
     shortages res = filter (\<lambda>r. lt0 (Remaining r)) (df_rows rnd P comps onhand cases)"
  (is "?L \<longleftrightarrow> ?M \<and> ?F \<and> ?S \<and> ?H")
proof (cases "merge_raises (map comp_Component comps) (onhand_Component onhand)")
  case True
  then show ?thesis by (simp add: compute_def)
next
  case False
  let ?df = "df_rows rnd P comps onhand cases"
  let ?fl = "if candidates ?df \<noteq> [] then math_floor (series_min (ratios rnd (candidates ?df)))
             else Inr 0"
  have c: "compute rnd P comps onhand cases =
      (case ?fl of Inl e \<Rightarrow> Inl e
       | Inr m \<Rightarrow> (case sort_values ?df of Inl e \<Rightarrow> Inl e
          | Inr d \<Rightarrow> Inr \<lparr>display = d, max_sellable = m,
               shortages = filter (\<lambda>r. lt0 (Remaining r)) ?df\<rparr>))"
    using False by (simp add: compute_def Let_def)
  have f: "?fl = Inr m \<longleftrightarrow>
      (if candidates ?df = [] then m = 0
       else \<exists>x. series_min (ratios rnd (candidates ?df)) = Fin x \<and> m = \<lfloor>x\<rfloor>)" for m
    by (auto simp: math_floor_Inr)
  show ?thesis
  proof
    assume l: ?L
    then obtain m where m: "?fl = Inr m" unfolding c by (cases ?fl) auto
    with l obtain d where d: "sort_values ?df = Inr d" unfolding c by (cases "sort_values ?df") auto
    from l m d have r: "res = \<lparr>display = d, max_sellable = m,
               shortages = filter (\<lambda>r. lt0 (Remaining r)) ?df\<rparr>"
      unfolding c by simp
    from m have "(if candidates ?df = [] then m = 0
       else \<exists>x. series_min (ratios rnd (candidates ?df)) = Fin x \<and> m = \<lfloor>x\<rfloor>)"
      by (simp only: f)
    with r d False show "?M \<and> ?F \<and> ?S \<and> ?H" by simp
  next
    assume a: "?M \<and> ?F \<and> ?S \<and> ?H"
    then have "?F" by (elim conjE)
    then have "?fl = Inr (max_sellable res)" by (simp only: f)
    with a show ?L unfolding c by simp
  qed
qed

lemma compute_Inl_iff:
  "compute rnd P comps onhand cases = Inl e \<longleftrightarrow>
     (if merge_raises (map comp_Component comps) (onhand_Component onhand)
      then e = ValueError_merge
      else if candidates (df_rows rnd P comps onhand cases) \<noteq> [] \<and>
              series_min (ratios rnd (candidates (df_rows rnd P comps onhand cases))) \<in> {PInf, NInf}
      then e = OverflowError
      else if candidates (df_rows rnd P comps onhand cases) \<noteq> [] \<and>
              series_min (ratios rnd (candidates (df_rows rnd P comps onhand cases))) = NaN
      then e = ValueError_floor
      else sort_raises (map Component (df_rows rnd P comps onhand cases)) \<and> e = TypeError_sort)"
proof (cases "merge_raises (map comp_Component comps) (onhand_Component onhand)")
  case True
  then show ?thesis by (auto simp: compute_def)
next
  case False
  let ?df = "df_rows rnd P comps onhand cases"
  show ?thesis
  proof (cases "candidates ?df = []")
    case True
    with False show ?thesis
      by (auto simp: compute_def Let_def sort_values_def)
  next
    case ne: False
    show ?thesis
    proof (cases "series_min (ratios rnd (candidates ?df))")
      case (Fin r)
      with False ne show ?thesis by (auto simp: compute_def Let_def sort_values_def)
    next
      case PInf
      with False ne show ?thesis by (auto simp: compute_def Let_def)
    next
      case NInf
      with False ne show ?thesis by (auto simp: compute_def Let_def)
    next
      case NaN
      with False ne show ?thesis by (auto simp: compute_def Let_def)
    qed
  qed
qed

section \<open>The calculator: the join\<close>

lemma numeric0_NaN: "numeric0 P (Flt NaN) = Fin 0"
  by (simp add: numeric0_def to_numeric_coerce_def fillna_def)

lemma numeric0_zero: "numeric0 P (Flt (Fin 0)) = Fin 0"
  by (simp add: numeric0_def to_numeric_coerce_def fillna_def)

lemma numeric0_not_NaN: "numeric0 P c \<noteq> NaN"
  by (simp add: numeric0_def fillna_def)

lemma mk_row_inventory_row:
  "mk_row rnd P cases (c, v) = inventory_row rnd P cases c (numeric0 P v)"
  by (simp add: mk_row_def inventory_row_def Let_def)

lemma set_merge_left:
  "set (merge_left comps right) =
     {(c, Some v) | c v. c \<in> set comps \<and> (comp_Component c, v) \<in> set right} \<union>
     {(c, None) | c. c \<in> set comps \<and> comp_Component c \<notin> fst ` set right}"
proof -
  have one: "set (case filter (\<lambda>kv. fst kv = comp_Component c) right of
                [] \<Rightarrow> [(c, None)]
              | ms \<Rightarrow> map (\<lambda>kv. (c, Some (snd kv))) ms) =
      {(c, Some v) | v. (comp_Component c, v) \<in> set right} \<union>
      {(c, None) | u::unit. comp_Component c \<notin> fst ` set right}" for c :: comp_row
  proof (cases "filter (\<lambda>kv. fst kv = comp_Component c) right")
    case Nil
    then have "\<forall>kv\<in>set right. fst kv \<noteq> comp_Component c"
      by (simp add: filter_empty_conv)
    then have "comp_Component c \<notin> fst ` set right" and "\<And>v. (comp_Component c, v) \<notin> set right"
      by force+
    with Nil show ?thesis by simp
  next
    case (Cons m ms)
    then have "m \<in> set (filter (\<lambda>kv. fst kv = comp_Component c) right)" by simp
    then have "comp_Component c \<in> fst ` set right" by force
    moreover have "set (map (\<lambda>kv. (c, Some (snd kv))) (filter (\<lambda>kv. fst kv = comp_Component c) right)) =
        {(c, Some v) | v. (comp_Component c, v) \<in> set right}"
      by force
    ultimately show ?thesis using Cons by simp
  qed
  show ?thesis
    unfolding merge_left_def set_concat set_map image_image one by blast
qed

lemma set_df_rows_OnHand:
  "set (df_rows rnd P comps (OnHand oh) cases) =
     {inventory_row rnd P cases c (numeric0 P v) | c v. c \<in> set comps \<and> (comp_Component c, v) \<in> set oh} \<union>
     {inventory_row rnd P cases c (Fin 0) | c. c \<in> set comps \<and> comp_Component c \<notin> fst ` set oh}"
  (is "?L = ?A \<union> ?B")
proof -
  let ?g = "\<lambda>cv. mk_row rnd P cases (fst cv, case snd cv of None \<Rightarrow> Flt NaN | Some x \<Rightarrow> x)"
  have "?L = ?g ` set (merge_left comps oh)"
    by (simp add: df_rows_def image_image case_prod_beta)
  also have "\<dots> = ?g ` {(c, Some v) | c v. c \<in> set comps \<and> (comp_Component c, v) \<in> set oh} \<union>
      ?g ` {(c, None) | c. c \<in> set comps \<and> comp_Component c \<notin> fst ` set oh}"
    by (simp only: set_merge_left image_Un)
  also have "?g ` {(c, Some v) | c v. c \<in> set comps \<and> (comp_Component c, v) \<in> set oh} = ?A"
    by (force simp: mk_row_inventory_row)
  also have "?g ` {(c, None) | c. c \<in> set comps \<and> comp_Component c \<notin> fst ` set oh} = ?B"
    by (force simp: mk_row_inventory_row numeric0_NaN)
  finally show ?thesis .
qed

lemma fst_set_merge_left: "fst ` set (merge_left comps right) = set comps"
proof
  show "fst ` set (merge_left comps right) \<subseteq> set comps"
    unfolding set_merge_left by auto
  show "set comps \<subseteq> fst ` set (merge_left comps right)"
  proof
    fix c assume c: "c \<in> set comps"
    show "c \<in> fst ` set (merge_left comps right)"
    proof (cases "comp_Component c \<in> fst ` set right")
      case True
      then obtain v where "(comp_Component c, v) \<in> set right" by force
      with c have "(c, Some v) \<in> set (merge_left comps right)"
        unfolding set_merge_left by blast
      then show ?thesis by force
    next
      case False
      with c have "(c, None) \<in> set (merge_left comps right)"
        unfolding set_merge_left by blast
      then show ?thesis by force
    qed
  qed
qed

lemma set_df_rows_NoOnHandColumn:
  "set (df_rows rnd P comps (NoOnHandColumn ks) cases) = {inventory_row rnd P cases c (Fin 0) | c. c \<in> set comps}"
  (is "?L = ?R")
proof -
  let ?m = "merge_left comps (map (\<lambda>k. (k, ())) ks)"
  have "?L = (\<lambda>c. inventory_row rnd P cases c (Fin 0)) ` (fst ` set ?m)"
    by (simp add: df_rows_def image_image case_prod_beta mk_row_inventory_row numeric0_zero)
  also have "\<dots> = (\<lambda>c. inventory_row rnd P cases c (Fin 0)) ` set comps"
    by (simp only: fst_set_merge_left)
  also have "\<dots> = ?R" by blast
  finally show ?thesis .
qed

lemma length_filter_distinct_key:
  "distinct (map fst right) \<Longrightarrow> length (filter (\<lambda>kv. fst kv = k) right) \<le> 1"
proof (induction right)
  case Nil
  show ?case by simp
next
  case (Cons a right)
  show ?case
  proof (cases "fst a = k")
    case True
    with Cons.prems have "k \<notin> fst ` set right" by auto
    then have "filter (\<lambda>kv. fst kv = k) right = []"
      by (auto simp: filter_empty_conv)
    with True show ?thesis by simp
  next
    case False
    with Cons show ?thesis by simp
  qed
qed

lemma length_merge_left:
  "length (merge_left comps right) = (\<Sum>c\<leftarrow>comps. max 1 (matches c right))"
proof -
  have "length (case filter (\<lambda>kv. fst kv = comp_Component c) right of
                [] \<Rightarrow> [(c, None)]
              | ms \<Rightarrow> map (\<lambda>kv. (c, Some (snd kv))) ms) = max 1 (matches c right)" for c :: comp_row
    by (cases "filter (\<lambda>kv. fst kv = comp_Component c) right") (simp_all add: matches_def)
  then show ?thesis
    by (simp add: merge_left_def length_concat comp_def)
qed

lemma length_merge_left_distinct:
  assumes "distinct (map fst right)"
  shows "length (merge_left comps right) = length comps"
proof -
  have "max 1 (matches c right) = 1" for c :: comp_row
    using length_filter_distinct_key [OF assms, of "comp_Component c"] by (simp add: matches_def)
  then show ?thesis
    by (simp add: length_merge_left sum_list_triv)
qed

lemma length_merge_left_ge: "length comps \<le> length (merge_left comps right)"
  unfolding length_merge_left by (induction comps) auto

lemma length_merge_left_dup:
  assumes "c \<in> set comps" and "2 \<le> matches c right"
  shows "length comps < length (merge_left comps right)"
  using assms
proof (induction comps)
  case Nil
  then show ?case by simp
next
  case (Cons a comps)
  have ge: "length comps \<le> (\<Sum>c\<leftarrow>comps. max 1 (matches c right))"
    using length_merge_left_ge [of comps right] by (simp add: length_merge_left)
  show ?case
  proof (cases "a = c")
    case True
    with Cons.prems ge show ?thesis by (simp add: length_merge_left)
  next
    case False
    with Cons have "length comps < (\<Sum>c\<leftarrow>comps. max 1 (matches c right))"
      by (simp add: length_merge_left)
    then show ?thesis by (simp add: length_merge_left)
  qed
qed

lemma length_df_rows_OnHand:
  "length (df_rows rnd P comps (OnHand oh) cases) = length (merge_left comps oh)"
  by (simp add: df_rows_def)

lemma filter_key_distinct:
  "distinct (map fst oh) \<Longrightarrow>
     filter (\<lambda>kv. fst kv = k) oh = (case map_of oh k of None \<Rightarrow> [] | Some v \<Rightarrow> [(k, v)])"
proof (induction oh)
  case Nil
  show ?case by simp
next
  case (Cons a oh)
  show ?case
  proof (cases "fst a = k")
    case True
    with Cons.prems have "k \<notin> fst ` set oh" by auto
    then have "filter (\<lambda>kv. fst kv = k) oh = []"
      by (auto simp: filter_empty_conv)
    with True show ?thesis by (cases a) simp
  next
    case False
    with Cons show ?thesis by (cases a) simp
  qed
qed

lemma df_rows_distinct:
  assumes "distinct (map fst oh)"
  shows "df_rows rnd P comps (OnHand oh) cases =
     map (\<lambda>c. inventory_row rnd P cases c
            (case map_of oh (comp_Component c) of None \<Rightarrow> Fin 0 | Some v \<Rightarrow> numeric0 P v)) comps"
  by (induction comps)
     (simp_all add: df_rows_def merge_left_def filter_key_distinct [OF assms]
        mk_row_inventory_row numeric0_NaN split: option.split)

section \<open>The calculator: what it returns, and when\<close>

lemmas ex_defs = ex_P_def ex_A_def ex_B_def ex_comps_def ex_onhand_def ex_R_def ex_formula_def ex_sh_def

lemmas eval_defs =
  df_rows_def merge_left_def mk_row_def numeric0_def to_numeric_coerce_def fillna_def
  inventory_row_def Let_def row_quotient_def candidates_def ratios_def series_min_def
  merge_raises_def sort_raises_def rnd_exact_def

lemma df_rows_formula:
  "r \<in> set (df_rows rnd P comps onhand cases) \<Longrightarrow>
     Required r = fmul rnd (Per_Case r) cases \<and> Remaining r = fsub rnd (On_Hand r) (Required r)"
  by (auto simp: df_rows_def mk_row_def Let_def)


lemma df_rows_has_comp:
  assumes "c \<in> set comps"
  shows "\<exists>r\<in>set (df_rows rnd P comps onhand cases). Component r = comp_Component c"
proof (cases onhand)
  case (OnHand oh')
  show ?thesis
  proof (cases "comp_Component c \<in> fst ` set oh'")
    case True
    then obtain v where "(comp_Component c, v) \<in> set oh'" by force
    with assms have "inventory_row rnd P cases c (numeric0 P v) \<in> set (df_rows rnd P comps onhand cases)"
      unfolding OnHand set_df_rows_OnHand by blast
    then show ?thesis by (force simp: inventory_row_def)
  next
    case False
    with assms have "inventory_row rnd P cases c (Fin 0) \<in> set (df_rows rnd P comps onhand cases)"
      unfolding OnHand set_df_rows_OnHand by blast
    then show ?thesis by (force simp: inventory_row_def)
  qed
next
  case (NoOnHandColumn ks')
  from assms have "inventory_row rnd P cases c (Fin 0) \<in> set (df_rows rnd P comps onhand cases)"
    unfolding NoOnHandColumn set_df_rows_NoOnHandColumn by blast
  then show ?thesis by (force simp: inventory_row_def)
qed

lemma compute_returns:
  assumes "\<not> merge_raises (map comp_Component comps) (onhand_Component onhand)"
    and "\<not> sort_raises (map Component (df_rows rnd P comps onhand cases))"
    and "candidates (df_rows rnd P comps onhand cases) = [] \<or>
         series_min (ratios rnd (candidates (df_rows rnd P comps onhand cases))) = Fin m"
  shows "\<exists>res. compute rnd P comps onhand cases = Inr res \<and>
     set (display res) = set (df_rows rnd P comps onhand cases) \<and>
     length (display res) = length (df_rows rnd P comps onhand cases)"
proof -
  let ?df = "df_rows rnd P comps onhand cases"
  let ?res = "\<lparr>display = sort_key (\<lambda>r. sort_rank (Component r)) ?df,
     max_sellable = (if candidates ?df = [] then 0 else \<lfloor>m\<rfloor>),
     shortages = filter (\<lambda>r. lt0 (Remaining r)) ?df\<rparr>"
  have "compute rnd P comps onhand cases = Inr ?res"
    unfolding compute_Inr_iff using assms by (auto simp: sort_values_def)
  then show ?thesis by (intro exI [where x = ?res] conjI) simp_all
qed





lemma ex_df_rows:
  "df_rows rnd ex_P ex_comps (OnHand ex_onhand) cases =
     [inventory_row rnd ex_P cases ex_A (Fin 10),
      inventory_row rnd ex_P cases ex_B (Fin 30)]"
  by (simp add: ex_defs df_rows_def merge_left_def mk_row_def numeric0_def
      to_numeric_coerce_def fillna_def inventory_row_def Let_def)

lemma ex_rows:
  "Per_Case (inventory_row rnd_exact ex_P (Fin c) ex_A (Fin 10)) = Fin 2"
  "Per_Case (inventory_row rnd_exact ex_P (Fin c) ex_B (Fin 30)) = Fin 5"
  "row_quotient rnd_exact (inventory_row rnd_exact ex_P (Fin c) ex_A (Fin 10)) = Fin 5"
  "row_quotient rnd_exact (inventory_row rnd_exact ex_P (Fin c) ex_B (Fin 30)) = Fin 6"
  "Component (inventory_row rnd_exact ex_P (Fin c) ex_A (Fin 10)) = Txt ''A''"
  "Component (inventory_row rnd_exact ex_P (Fin c) ex_B (Fin 30)) = Txt ''B''"
  by (simp_all add: ex_defs inventory_row_def numeric0_def to_numeric_coerce_def fillna_def
      row_quotient_def rnd_exact_def)

lemma ex_compute:
  "\<exists>res. compute rnd_exact ex_P ex_comps (OnHand ex_onhand) (Fin c) = Inr res \<and>
     set (display res) =
       {inventory_row rnd_exact ex_P (Fin c) ex_A (Fin 10),
        inventory_row rnd_exact ex_P (Fin c) ex_B (Fin 30)} \<and>
     length (display res) = 2"
proof -
  let ?df = "df_rows rnd_exact ex_P ex_comps (OnHand ex_onhand) (Fin c)"
  have m: "\<not> merge_raises (map comp_Component ex_comps) (onhand_Component (OnHand ex_onhand))"
    by (simp add: merge_raises_def ex_defs)
  have s: "\<not> sort_raises (map Component ?df)"
    by (simp add: ex_df_rows ex_rows sort_raises_def)
  have q: "candidates ?df = [] \<or> series_min (ratios rnd_exact (candidates ?df)) = Fin 5"
    by (simp add: ex_df_rows candidates_def ratios_def series_min_def ex_rows
        row_quotient_def [symmetric])
  from compute_returns [OF m s q] show ?thesis
    by (simp add: ex_df_rows numeral_2_eq_2)
qed


text \<open>
  C2 (as amended).  Whenever \<open>compute\<close> returns, in every row required is per-case times
  cases and remaining is on-hand minus required, as the floats give them, and
  \<open>shortages\<close> is exactly the set of rows with a negative remaining: a row with remaining
  0 is not in it.
\<close>

theorem compute_shortages:
  "compute rnd P comps onhand cases = Inr res \<longrightarrow>
     (\<forall>r\<in>set (display res).
        Required r = fmul rnd (Per_Case r) cases \<and>
        Remaining r = fsub rnd (On_Hand r) (Required r)) \<and>
     set (shortages res) = {r \<in> set (display res). lt0 (Remaining r)} \<and>
     (\<forall>r\<in>set (display res). Remaining r = Fin 0 \<longrightarrow> r \<notin> set (shortages res))"
proof
  let ?df = "df_rows rnd P comps onhand cases"
  assume "compute rnd P comps onhand cases = Inr res"
  then have d: "set (display res) = set ?df"
    and s: "shortages res = filter (\<lambda>r. lt0 (Remaining r)) ?df"
    by (auto simp: compute_Inr_iff dest: sort_values_set)
  show "(\<forall>r\<in>set (display res).
        Required r = fmul rnd (Per_Case r) cases \<and>
        Remaining r = fsub rnd (On_Hand r) (Required r)) \<and>
     set (shortages res) = {r \<in> set (display res). lt0 (Remaining r)} \<and>
     (\<forall>r\<in>set (display res). Remaining r = Fin 0 \<longrightarrow> r \<notin> set (shortages res))"
    unfolding d s using df_rows_formula [of _ rnd P comps onhand cases] by auto
qed

theorem compute_shortages_counterexample:
  "compute rnd_exact ex_P
     [\<lparr>comp_Component = Txt ''A'', comp_Per_Case = Flt (Fin 2), comp_UOM = Txt ''kg''\<rparr>,
      \<lparr>comp_Component = Txt ''B'', comp_Per_Case = Flt (Fin (1 / 4)), comp_UOM = Txt ''kg''\<rparr>]
     (OnHand [(Txt ''A'', Flt (Fin (- 1))), (Txt ''B'', Flt (Fin (- (2 ^ 1023))))]) (Fin 0) =
     Inl OverflowError \<and>
   lt0 (fsub rnd_exact (Fin (- 1)) (fmul rnd_exact (Fin 2) (Fin 0)))"
  by (simp add: compute_Inl_iff eval_defs)

theorem compute_shortages_witness:
  "\<exists>res. compute rnd_exact ex_P ex_comps (OnHand ex_onhand) (Fin 6) = Inr res \<and>
     set (shortages res) = {inventory_row rnd_exact ex_P (Fin 6) ex_A (Fin 10)} \<and>
     Remaining (inventory_row rnd_exact ex_P (Fin 6) ex_A (Fin 10)) = Fin (- 2) \<and>
     inventory_row rnd_exact ex_P (Fin 6) ex_B (Fin 30) \<in> set (display res) \<and>
     Remaining (inventory_row rnd_exact ex_P (Fin 6) ex_B (Fin 30)) = Fin 0 \<and>
     inventory_row rnd_exact ex_P (Fin 6) ex_B (Fin 30) \<notin> set (shortages res)"
proof -
  let ?a = "inventory_row rnd_exact ex_P (Fin 6) ex_A (Fin 10)"
  let ?b = "inventory_row rnd_exact ex_P (Fin 6) ex_B (Fin 30)"
  from ex_compute [of 6] obtain res
    where r: "compute rnd_exact ex_P ex_comps (OnHand ex_onhand) (Fin 6) = Inr res"
      and d: "set (display res) = {?a, ?b}"
    by (elim exE conjE)
  from compute_shortages [of rnd_exact ex_P ex_comps "OnHand ex_onhand" "Fin 6" res] r
  have sh: "set (shortages res) = {r \<in> set (display res). lt0 (Remaining r)}"
    by simp
  have r0: "Remaining ?a = Fin (- 2)" and r1: "Remaining ?b = Fin 0"
    by (simp_all add: ex_defs inventory_row_def numeric0_def to_numeric_coerce_def fillna_def
        rnd_exact_def)
  from sh d r0 r1 have s: "set (shortages res) = {?a}" by auto
  from s r0 r1 have n: "?b \<notin> set (shortages res)" by auto
  from d have m: "?b \<in> set (display res)" by simp
  from r s r0 m r1 n show ?thesis by (intro exI [where x = res] conjI)
qed

text \<open>
  C3 (as amended).  Whenever \<open>compute\<close> returns, the rows of \<open>display\<close> are the left join by
  equality of names: one row for each component and each on-hand row of its name, with
  the coerced on-hand value, and one row with on-hand 0.0 for each component without a
  partner; every component has a row.  A missing value (NaN), a text that does not
  parse, and a frame without the On_Hand column all give on-hand 0.0, from which required
  and remaining are computed.  \<open>compute\<close> raises the merge's ValueError exactly when both
  frames have rows and one name column is numeric while the other holds text.
\<close>

theorem compute_left_join:
  "(compute rnd P comps (OnHand oh) cases = Inr res \<longrightarrow>
      set (display res) =
        {inventory_row rnd P cases c (numeric0 P v) | c v.
           c \<in> set comps \<and> (comp_Component c, v) \<in> set oh} \<union>
        {inventory_row rnd P cases c (Fin 0) | c.
           c \<in> set comps \<and> comp_Component c \<notin> fst ` set oh}) \<and>
   (compute rnd P comps (NoOnHandColumn ks) cases = Inr res \<longrightarrow>
      set (display res) = {inventory_row rnd P cases c (Fin 0) | c. c \<in> set comps}) \<and>
   (compute rnd P comps onhand cases = Inr res \<longrightarrow>
      (\<forall>c\<in>set comps. \<exists>r\<in>set (display res). Component r = comp_Component c)) \<and>
   numeric0 P (Flt NaN) = Fin 0 \<and>
   (\<forall>s. P s = None \<longrightarrow> numeric0 P (Txt s) = Fin 0) \<and>
   (compute rnd P comps onhand cases = Inl ValueError_merge \<longleftrightarrow>
      merge_raises (map comp_Component comps) (onhand_Component onhand))"
proof (intro conjI impI allI)
  assume "compute rnd P comps (OnHand oh) cases = Inr res"
  then have "set (display res) = set (df_rows rnd P comps (OnHand oh) cases)"
    by (auto simp: compute_Inr_iff dest: sort_values_set)
  then show "set (display res) =
        {inventory_row rnd P cases c (numeric0 P v) | c v.
           c \<in> set comps \<and> (comp_Component c, v) \<in> set oh} \<union>
        {inventory_row rnd P cases c (Fin 0) | c.
           c \<in> set comps \<and> comp_Component c \<notin> fst ` set oh}"
    by (simp only: set_df_rows_OnHand)
next
  assume "compute rnd P comps (NoOnHandColumn ks) cases = Inr res"
  then have "set (display res) = set (df_rows rnd P comps (NoOnHandColumn ks) cases)"
    by (auto simp: compute_Inr_iff dest: sort_values_set)
  then show "set (display res) = {inventory_row rnd P cases c (Fin 0) | c. c \<in> set comps}"
    by (simp only: set_df_rows_NoOnHandColumn)
next
  assume "compute rnd P comps onhand cases = Inr res"
  then have d: "set (display res) = set (df_rows rnd P comps onhand cases)"
    by (auto simp: compute_Inr_iff dest: sort_values_set)
  show "\<forall>c\<in>set comps. \<exists>r\<in>set (display res). Component r = comp_Component c"
    unfolding d using df_rows_has_comp by blast
next
  show "numeric0 P (Flt NaN) = Fin 0" by (rule numeric0_NaN)
next
  fix s assume "P s = None"
  then show "numeric0 P (Txt s) = Fin 0"
    by (simp add: numeric0_def to_numeric_coerce_def fillna_def)
next
  show "compute rnd P comps onhand cases = Inl ValueError_merge \<longleftrightarrow>
      merge_raises (map comp_Component comps) (onhand_Component onhand)"
    by (auto simp: compute_Inl_iff split: if_splits)
qed

theorem compute_left_join_counterexample:
  "compute rnd_exact ex_P ex_comps (OnHand [(Flt (Fin 1), Flt (Fin 10))]) (Fin 3) =
     Inl ValueError_merge"
  by (simp add: compute_Inl_iff merge_raises_def ex_defs)

theorem compute_left_join_witness:
  "\<exists>res. compute rnd_exact ex_P ex_comps
       (OnHand [(Txt ''A'', Txt ''n/a''), (Txt ''C'', Flt (Fin 7))]) (Fin 3) = Inr res \<and>
     inventory_row rnd_exact ex_P (Fin 3) ex_A (Fin 0) \<in> set (display res) \<and>
     inventory_row rnd_exact ex_P (Fin 3) ex_B (Fin 0) \<in> set (display res) \<and>
     Remaining (inventory_row rnd_exact ex_P (Fin 3) ex_B (Fin 0)) = Fin (- 15) \<and>
     length (display res) = 2"
proof -
  let ?oh = "[(Txt ''A'', Txt ''n/a''), (Txt ''C'', Flt (Fin 7))]"
  let ?df = "df_rows rnd_exact ex_P ex_comps (OnHand ?oh) (Fin 3)"
  have df: "?df = [inventory_row rnd_exact ex_P (Fin 3) ex_A (Fin 0),
                   inventory_row rnd_exact ex_P (Fin 3) ex_B (Fin 0)]"
    by (simp add: ex_defs df_rows_def merge_left_def mk_row_def numeric0_def
        to_numeric_coerce_def fillna_def inventory_row_def Let_def)
  have rows:
    "Component (inventory_row rnd_exact ex_P (Fin 3) ex_A (Fin 0)) = Txt ''A''"
    "Component (inventory_row rnd_exact ex_P (Fin 3) ex_B (Fin 0)) = Txt ''B''"
    "Per_Case (inventory_row rnd_exact ex_P (Fin 3) ex_A (Fin 0)) = Fin 2"
    "Per_Case (inventory_row rnd_exact ex_P (Fin 3) ex_B (Fin 0)) = Fin 5"
    "row_quotient rnd_exact (inventory_row rnd_exact ex_P (Fin 3) ex_A (Fin 0)) = Fin 0"
    "row_quotient rnd_exact (inventory_row rnd_exact ex_P (Fin 3) ex_B (Fin 0)) = Fin 0"
    by (simp_all add: ex_defs inventory_row_def numeric0_def to_numeric_coerce_def fillna_def
        row_quotient_def rnd_exact_def)
  have m: "\<not> merge_raises (map comp_Component ex_comps) (onhand_Component (OnHand ?oh))"
    by (simp add: merge_raises_def ex_defs)
  have s: "\<not> sort_raises (map Component ?df)"
    by (simp add: df rows sort_raises_def)
  have q: "candidates ?df = [] \<or> series_min (ratios rnd_exact (candidates ?df)) = Fin 0"
    by (simp add: df candidates_def ratios_def series_min_def rows row_quotient_def [symmetric])
  from compute_returns [OF m s q] obtain res
    where r: "compute rnd_exact ex_P ex_comps (OnHand ?oh) (Fin 3) = Inr res"
      and l: "length (display res) = length ?df"
    by (elim exE conjE)
  from compute_left_join [of rnd_exact ex_P ex_comps ?oh "Fin 3" res] r
  have d: "set (display res) =
        {inventory_row rnd_exact ex_P (Fin 3) c (numeric0 ex_P v) | c v.
           c \<in> set ex_comps \<and> (comp_Component c, v) \<in> set ?oh} \<union>
        {inventory_row rnd_exact ex_P (Fin 3) c (Fin 0) | c.
           c \<in> set ex_comps \<and> comp_Component c \<notin> fst ` set ?oh}"
    by simp
  have n: "numeric0 ex_P (Txt ''n/a'') = Fin 0"
    by (simp add: ex_defs numeric0_def to_numeric_coerce_def fillna_def)
  have k: "ex_A \<in> set ex_comps" "comp_Component ex_A = Txt ''A''"
    "ex_B \<in> set ex_comps" "comp_Component ex_B = Txt ''B''"
    by (simp_all add: ex_defs)
  have a: "inventory_row rnd_exact ex_P (Fin 3) ex_A (Fin 0) \<in> set (display res)"
  proof -
    have "inventory_row rnd_exact ex_P (Fin 3) ex_A (numeric0 ex_P (Txt ''n/a'')) \<in>
        {inventory_row rnd_exact ex_P (Fin 3) c (numeric0 ex_P v) | c v.
           c \<in> set ex_comps \<and> (comp_Component c, v) \<in> set ?oh}"
      using k by force
    then show ?thesis unfolding d n by simp
  qed
  have b: "inventory_row rnd_exact ex_P (Fin 3) ex_B (Fin 0) \<in> set (display res)"
  proof -
    have "inventory_row rnd_exact ex_P (Fin 3) ex_B (Fin 0) \<in>
        {inventory_row rnd_exact ex_P (Fin 3) c (Fin 0) | c.
           c \<in> set ex_comps \<and> comp_Component c \<notin> fst ` set ?oh}"
      using k by force
    then show ?thesis unfolding d by simp
  qed
  have rem: "Remaining (inventory_row rnd_exact ex_P (Fin 3) ex_B (Fin 0)) = Fin (- 15)"
    by (simp add: ex_defs inventory_row_def numeric0_def to_numeric_coerce_def fillna_def
        rnd_exact_def)
  from l have l2: "length (display res) = 2" by (simp add: df)
  from r a b rem l2 show ?thesis by (intro exI [where x = res] conjI)
qed

lemma series_min_finite:
  assumes "xs \<noteq> []" and "\<forall>x\<in>set xs. \<exists>m. x = Fin m"
  shows "\<exists>m. series_min xs = Fin m"
proof -
  from assms obtain x where "x \<in> set xs" "x \<noteq> NaN" by (cases xs) auto
  then have "series_min xs \<noteq> NaN" by (auto simp: series_min_NaN_iff)
  from series_min_mem [OF this] assms(2) show ?thesis by blast
qed

text \<open>
  C8 (as amended).  \<open>compute\<close> never divides by zero: every row whose quotient line 181
  computes has a positive per-case usage.  It is not total: it returns exactly when the
  merge does not raise (the two name columns are of one kind, or a frame is empty), the
  minimum quotient, if any row has a positive per-case usage, is a finite number (it is
  when every such quotient is), and the names can be sorted; otherwise it raises the
  merge's ValueError, \<^verbatim>\<open>math.floor\<close>'s OverflowError or ValueError, or the sort's
  TypeError, and nothing else.
\<close>

theorem compute_total:
  "(\<forall>r\<in>set (candidates (df_rows rnd P comps onhand cases)).
      gt0 (Per_Case r) \<and> Per_Case r \<noteq> Fin 0) \<and>
   ((\<exists>res. compute rnd P comps onhand cases = Inr res) \<longleftrightarrow>
      \<not> merge_raises (map comp_Component comps) (onhand_Component onhand) \<and>
      (candidates (df_rows rnd P comps onhand cases) = [] \<or>
       (\<exists>m. series_min (ratios rnd (candidates (df_rows rnd P comps onhand cases))) = Fin m)) \<and>
      \<not> sort_raises (map Component (df_rows rnd P comps onhand cases))) \<and>
   (compute rnd P comps onhand cases = Inl e \<longrightarrow>
      e = ValueError_merge \<or> e = OverflowError \<or> e = ValueError_floor \<or> e = TypeError_sort) \<and>
   ((\<forall>r\<in>set (candidates (df_rows rnd P comps onhand cases)). \<exists>m. row_quotient rnd r = Fin m) \<longrightarrow>
      candidates (df_rows rnd P comps onhand cases) = [] \<or>
      (\<exists>m. series_min (ratios rnd (candidates (df_rows rnd P comps onhand cases))) = Fin m))"
proof (intro conjI impI)
  let ?df = "df_rows rnd P comps onhand cases"
  show "\<forall>r\<in>set (candidates ?df). gt0 (Per_Case r) \<and> Per_Case r \<noteq> Fin 0"
    by (auto simp: candidates_def)
  show "(\<exists>res. compute rnd P comps onhand cases = Inr res) \<longleftrightarrow>
      \<not> merge_raises (map comp_Component comps) (onhand_Component onhand) \<and>
      (candidates ?df = [] \<or> (\<exists>m. series_min (ratios rnd (candidates ?df)) = Fin m)) \<and>
      \<not> sort_raises (map Component ?df)"
  proof
    assume "\<exists>res. compute rnd P comps onhand cases = Inr res"
    then obtain res where "compute rnd P comps onhand cases = Inr res" ..
    then show "\<not> merge_raises (map comp_Component comps) (onhand_Component onhand) \<and>
      (candidates ?df = [] \<or> (\<exists>m. series_min (ratios rnd (candidates ?df)) = Fin m)) \<and>
      \<not> sort_raises (map Component ?df)"
      unfolding compute_Inr_iff sort_values_Inr by (cases "candidates ?df = []") auto
  next
    assume a: "\<not> merge_raises (map comp_Component comps) (onhand_Component onhand) \<and>
      (candidates ?df = [] \<or> (\<exists>m. series_min (ratios rnd (candidates ?df)) = Fin m)) \<and>
      \<not> sort_raises (map Component ?df)"
    then obtain m where "candidates ?df = [] \<or> series_min (ratios rnd (candidates ?df)) = Fin m"
      by auto
    from compute_returns [OF _ _ this] a show "\<exists>res. compute rnd P comps onhand cases = Inr res"
      by auto
  qed
  show "e = ValueError_merge \<or> e = OverflowError \<or> e = ValueError_floor \<or> e = TypeError_sort"
    if "compute rnd P comps onhand cases = Inl e"
    using that by (auto simp: compute_Inl_iff split: if_splits)
  show "candidates ?df = [] \<or> (\<exists>m. series_min (ratios rnd (candidates ?df)) = Fin m)"
    if f: "\<forall>r\<in>set (candidates ?df). \<exists>m. row_quotient rnd r = Fin m"
  proof (cases "candidates ?df = []")
    case True
    then show ?thesis by simp
  next
    case False
    then have "ratios rnd (candidates ?df) \<noteq> []" by (simp add: ratios_def)
    moreover from f have "\<forall>x\<in>set (ratios rnd (candidates ?df)). \<exists>m. x = Fin m"
      by (auto simp: ratios_def row_quotient_def)
    ultimately show ?thesis using series_min_finite by blast
  qed
qed

theorem compute_total_counterexample:
  "compute rnd_exact ex_P
     [\<lparr>comp_Component = Txt ''A'', comp_Per_Case = Flt (Fin (1 / 2)), comp_UOM = Txt ''kg''\<rparr>]
     (OnHand [(Txt ''A'', Flt (Fin (2 ^ 1023)))]) (Fin 0) = Inl OverflowError \<and>
   compute rnd_exact ex_P ex_comps (OnHand [(Flt (Fin 1), Flt (Fin 10)), (Flt (Fin 2), Flt (Fin 30))])
     (Fin 0) = Inl ValueError_merge"
  by (simp add: compute_Inl_iff df_rows_def merge_left_def mk_row_def numeric0_def
      to_numeric_coerce_def fillna_def Let_def candidates_def ratios_def series_min_def
      merge_raises_def rnd_exact_def ex_defs)

theorem compute_total_witness:
  "(\<exists>res. compute rnd_exact ex_P
       [\<lparr>comp_Component = Txt ''A'', comp_Per_Case = Txt ''n/a'', comp_UOM = Txt []\<rparr>, ex_B]
       (OnHand ex_onhand) (Fin 3) = Inr res) \<and>
   ratios rnd_exact (candidates (df_rows rnd_exact ex_P
       [\<lparr>comp_Component = Txt ''A'', comp_Per_Case = Txt ''n/a'', comp_UOM = Txt []\<rparr>, ex_B]
       (OnHand ex_onhand) (Fin 3))) = [Fin 6]"
proof -
  let ?comps = "[\<lparr>comp_Component = Txt ''A'', comp_Per_Case = Txt ''n/a'', comp_UOM = Txt []\<rparr>, ex_B]"
  let ?df = "df_rows rnd_exact ex_P ?comps (OnHand ex_onhand) (Fin 3)"
  have q: "ratios rnd_exact (candidates ?df) = [Fin 6]"
    by (simp add: ex_defs df_rows_def merge_left_def mk_row_def numeric0_def
        to_numeric_coerce_def fillna_def Let_def candidates_def ratios_def rnd_exact_def)
  then have "\<exists>m. series_min (ratios rnd_exact (candidates ?df)) = Fin m"
    by (simp add: series_min_def)
  moreover have "\<not> merge_raises (map comp_Component ?comps) (onhand_Component (OnHand ex_onhand))"
    by (simp add: merge_raises_def ex_defs)
  moreover have "\<not> sort_raises (map Component ?df)"
    by (simp add: ex_defs df_rows_def merge_left_def mk_row_def Let_def sort_raises_def)
  ultimately have "\<exists>res. compute rnd_exact ex_P ?comps (OnHand ex_onhand) (Fin 3) = Inr res"
    using compute_total [of rnd_exact ex_P ?comps "OnHand ex_onhand" "Fin 3"] by blast
  with q show ?thesis by (intro conjI)
qed

text \<open>
  C9 (as amended).  Whenever \<open>compute\<close> returns: when no name occurs twice in \<open>onhand\<close>,
  \<open>display\<close> has as many rows as \<open>comps\<close>, being the sorted list of one row per component
  row, with the on-hand value of its name; when some component has two or more on-hand
  rows of its name, \<open>display\<close> has more rows than \<open>comps\<close>.
\<close>

theorem compute_row_count:
  "(distinct (map fst oh) \<and> compute rnd P comps (OnHand oh) cases = Inr res \<longrightarrow>
      length (display res) = length comps \<and>
      sort_values (map (\<lambda>c. inventory_row rnd P cases c
              (case map_of oh (comp_Component c) of None \<Rightarrow> Fin 0 | Some v \<Rightarrow> numeric0 P v)) comps) =
        Inr (display res)) \<and>
   ((\<exists>c\<in>set comps. 2 \<le> matches c oh) \<and> compute rnd P comps (OnHand oh) cases = Inr res \<longrightarrow>
      length comps < length (display res))"
proof (intro conjI impI)
  assume a: "distinct (map fst oh) \<and> compute rnd P comps (OnHand oh) cases = Inr res"
  then have s: "sort_values (df_rows rnd P comps (OnHand oh) cases) = Inr (display res)"
    by (simp add: compute_Inr_iff)
  from a have d: "distinct (map fst oh)" by simp
  from sort_values_length [OF s] show "length (display res) = length comps"
    by (simp add: length_df_rows_OnHand length_merge_left_distinct [OF d])
  from s show "sort_values (map (\<lambda>c. inventory_row rnd P cases c
              (case map_of oh (comp_Component c) of None \<Rightarrow> Fin 0 | Some v \<Rightarrow> numeric0 P v)) comps) =
        Inr (display res)"
    by (simp only: df_rows_distinct [OF d])
next
  assume a: "(\<exists>c\<in>set comps. 2 \<le> matches c oh) \<and> compute rnd P comps (OnHand oh) cases = Inr res"
  then have s: "sort_values (df_rows rnd P comps (OnHand oh) cases) = Inr (display res)"
    by (simp add: compute_Inr_iff)
  from a obtain c where "c \<in> set comps" "2 \<le> matches c oh" by blast
  from length_merge_left_dup [OF this] sort_values_length [OF s]
  show "length comps < length (display res)"
    by (simp add: length_df_rows_OnHand)
qed

theorem compute_row_count_counterexample:
  "distinct (map fst [(Txt ''A'', Flt (Fin 10)), (Txt ''B'', Flt (Fin 5))]) \<and>
   compute rnd_exact ex_P
     [\<lparr>comp_Component = Flt (Fin 1), comp_Per_Case = Flt (Fin 2), comp_UOM = Txt ''kg''\<rparr>]
     (OnHand [(Txt ''A'', Flt (Fin 10)), (Txt ''B'', Flt (Fin 5))]) (Fin 3) =
     Inl ValueError_merge"
  by (simp add: compute_Inl_iff merge_raises_def)

theorem compute_row_count_witness:
  "(\<exists>res. compute rnd_exact ex_P ex_comps (OnHand ex_onhand) (Fin 3) = Inr res \<and>
      length (display res) = 2) \<and>
   (\<exists>res. compute rnd_exact ex_P ex_comps (OnHand (ex_onhand @ [(Txt ''A'', Flt (Fin 1))])) (Fin 3) =
        Inr res \<and>
      length (display res) = 3 \<and> length ex_comps < length (display res))"
proof -
  let ?oh = "ex_onhand @ [(Txt ''A'', Flt (Fin 1))]"
  let ?df = "df_rows rnd_exact ex_P ex_comps (OnHand ?oh) (Fin 3)"
  have d: "distinct (map fst ex_onhand)" and l: "length ex_comps = 2"
    by (simp_all add: ex_defs)
  from ex_compute [of 3] obtain res1
    where r1: "compute rnd_exact ex_P ex_comps (OnHand ex_onhand) (Fin 3) = Inr res1"
    by (elim exE conjE)
  from compute_row_count [of ex_onhand rnd_exact ex_P ex_comps "Fin 3" res1] d r1 l
  have "length (display res1) = 2" by simp
  with r1 have one: "\<exists>res. compute rnd_exact ex_P ex_comps (OnHand ex_onhand) (Fin 3) = Inr res \<and>
      length (display res) = 2"
    by (intro exI [where x = res1] conjI)
  have df: "?df = [inventory_row rnd_exact ex_P (Fin 3) ex_A (Fin 10),
                   inventory_row rnd_exact ex_P (Fin 3) ex_A (Fin 1),
                   inventory_row rnd_exact ex_P (Fin 3) ex_B (Fin 30)]"
    by (simp add: ex_defs df_rows_def merge_left_def mk_row_def numeric0_def
        to_numeric_coerce_def fillna_def inventory_row_def Let_def)
  have q1: "row_quotient rnd_exact (inventory_row rnd_exact ex_P (Fin 3) ex_A (Fin 1)) = Fin (1 / 2)"
    "Per_Case (inventory_row rnd_exact ex_P (Fin 3) ex_A (Fin 1)) = Fin 2"
    "Component (inventory_row rnd_exact ex_P (Fin 3) ex_A (Fin 1)) = Txt ''A''"
    by (simp_all add: ex_defs inventory_row_def numeric0_def to_numeric_coerce_def fillna_def
        row_quotient_def rnd_exact_def)
  have m: "\<not> merge_raises (map comp_Component ex_comps) (onhand_Component (OnHand ?oh))"
    by (simp add: merge_raises_def ex_defs)
  have s: "\<not> sort_raises (map Component ?df)"
    by (simp add: df ex_rows q1 sort_raises_def)
  have q: "candidates ?df = [] \<or> series_min (ratios rnd_exact (candidates ?df)) = Fin (1 / 2)"
    by (simp add: df candidates_def ratios_def series_min_def ex_rows q1 row_quotient_def [symmetric])
  from compute_returns [OF m s q] obtain res2
    where r2: "compute rnd_exact ex_P ex_comps (OnHand ?oh) (Fin 3) = Inr res2"
      and l2: "length (display res2) = length ?df"
    by (elim exE conjE)
  have mt: "\<exists>c\<in>set ex_comps. 2 \<le> matches c ?oh"
    by (simp add: ex_defs matches_def)
  from compute_row_count [of ?oh rnd_exact ex_P ex_comps "Fin 3" res2] mt r2
  have lt: "length ex_comps < length (display res2)" by simp
  from l2 have l3: "length (display res2) = 3" by (simp add: df)
  from r2 l3 lt have two: "\<exists>res. compute rnd_exact ex_P ex_comps (OnHand ?oh) (Fin 3) = Inr res \<and>
      length (display res) = 3 \<and> length ex_comps < length (display res)"
    by (intro exI [where x = res2] conjI)
  from one two show ?thesis by (intro conjI)
qed

text \<open>
  C10.  \<open>max_sellable\<close> is not clamped at zero: one component with per-case 2 and on-hand
  -3 gives -2.
\<close>

theorem compute_negative_max_sellable:
  "\<exists>res. compute rnd_exact ex_P
       [\<lparr>comp_Component = Txt ''A'', comp_Per_Case = Flt (Fin 2), comp_UOM = Txt ''kg''\<rparr>]
       (OnHand [(Txt ''A'', Flt (Fin (- 3)))]) (Fin 1) = Inr res \<and>
     gt0 (Per_Case (hd (display res))) \<and> lt0 (On_Hand (hd (display res))) \<and>
     max_sellable res = - 2 \<and> max_sellable res < 0"
  by (simp add: compute_def sort_values_def sort_raises_def merge_raises_def df_rows_def
      merge_left_def mk_row_def numeric0_def to_numeric_coerce_def fillna_def Let_def
      candidates_def ratios_def series_min_def rnd_exact_def)

section \<open>The loader\<close>

lemma column_Inr:
  "c \<in> set (columns df) \<Longrightarrow> \<exists>xs. column df c = Inr xs \<and> (c, xs) \<in> set df"
proof -
  assume "c \<in> set (columns df)"
  then have "map_of df c \<noteq> None"
    by (simp add: columns_def map_of_eq_None_iff)
  then obtain xs where "map_of df c = Some xs" by blast
  then show ?thesis
    by (auto simp: column_def dest: map_of_SomeD)
qed

lemma length_to_numeric_ignore: "length (to_numeric_ignore Pi col) = length col"
  by (simp add: to_numeric_ignore_def)

lemma read_ws_df_lengths:
  assumes "read_ws_df Pi vals = Inr df" and "(c, xs) \<in> set df"
  shows "length xs = length vals - 1"
proof (cases vals)
  case Nil
  with assms show ?thesis by (simp add: read_ws_df_def)
next
  case (Cons header data)
  with assms show ?thesis
    by (auto simp: read_ws_df_def length_to_numeric_ignore split: if_splits)
qed

lemma load_frames_schema:
  "\<not> {''Component'', ''Per_Case''} \<subseteq> set (columns formula) \<Longrightarrow>
     load_frames formula inventory = Inl (SchemaError (columns formula))"
  by (simp add: load_frames_def)

lemma load_frames_Inr:
  assumes req: "{''Component'', ''Per_Case''} \<subseteq> set (columns formula)"
  shows "\<exists>cs ps us onhand.
     column formula ''Component'' = Inr cs \<and> (''Component'', cs) \<in> set formula \<and>
     column formula ''Per_Case'' = Inr ps \<and> (''Per_Case'', ps) \<in> set formula \<and>
     (if ''UOM'' \<in> set (columns formula)
      then column formula ''UOM'' = Inr us \<and> (''UOM'', us) \<in> set formula
      else us = map (\<lambda>c. Txt []) cs) \<and>
     (if {''Component'', ''On_Hand''} \<subseteq> set (columns inventory)
      then \<exists>ks vs. column inventory ''Component'' = Inr ks \<and> (''Component'', ks) \<in> set inventory \<and>
             column inventory ''On_Hand'' = Inr vs \<and> (''On_Hand'', vs) \<in> set inventory \<and>
             onhand = zip ks vs
      else onhand = map (\<lambda>c. (c, Flt (Fin 0))) cs) \<and>
     load_frames formula inventory =
       Inr (map (\<lambda>(c, p, u). \<lparr>comp_Component = c, comp_Per_Case = p, comp_UOM = u\<rparr>)
                (zip cs (zip ps us)),
            OnHand onhand)"
proof -
  from req obtain cs ps where cs: "column formula ''Component'' = Inr cs" "(''Component'', cs) \<in> set formula"
    and ps: "column formula ''Per_Case'' = Inr ps" "(''Per_Case'', ps) \<in> set formula"
    using column_Inr [of "''Component''" formula] column_Inr [of "''Per_Case''" formula] by auto
  obtain us where us: "if ''UOM'' \<in> set (columns formula)
      then column formula ''UOM'' = Inr us \<and> (''UOM'', us) \<in> set formula
      else us = map (\<lambda>c. Txt []) cs"
    using column_Inr [of "''UOM''" formula] by (cases "''UOM'' \<in> set (columns formula)") auto
  obtain onhand where oh: "if {''Component'', ''On_Hand''} \<subseteq> set (columns inventory)
      then \<exists>ks vs. column inventory ''Component'' = Inr ks \<and> (''Component'', ks) \<in> set inventory \<and>
             column inventory ''On_Hand'' = Inr vs \<and> (''On_Hand'', vs) \<in> set inventory \<and>
             onhand = zip ks vs
      else onhand = map (\<lambda>c. (c, Flt (Fin 0))) cs"
    using column_Inr [of "''Component''" inventory] column_Inr [of "''On_Hand''" inventory]
    by (cases "{''Component'', ''On_Hand''} \<subseteq> set (columns inventory)") auto
  have "load_frames formula inventory =
       Inr (map (\<lambda>(c, p, u). \<lparr>comp_Component = c, comp_Per_Case = p, comp_UOM = u\<rparr>)
                (zip cs (zip ps us)),
            OnHand onhand)"
    using req cs ps us oh unfolding load_frames_def
    by (auto split: if_splits)
  with cs ps us oh show ?thesis by blast
qed

lemma comp_UOM_zip:
  assumes "c \<in> set (map (\<lambda>(c, p, u). \<lparr>comp_Component = c, comp_Per_Case = p, comp_UOM = u\<rparr>)
                (zip cs (zip ps us)))"
  shows "comp_UOM c \<in> set us"
proof -
  from assms obtain x p u where "(x, p, u) \<in> set (zip cs (zip ps us))" and "comp_UOM c = u"
    by auto
  then show ?thesis by (auto dest!: set_zip_rightD)
qed

lemma zip_comps_columns:
  assumes "length ps = length cs" and "length us = length cs"
  shows "map comp_Component
           (map (\<lambda>(c, p, u). \<lparr>comp_Component = c, comp_Per_Case = p, comp_UOM = u\<rparr>)
                (zip cs (zip ps us))) = cs"
    and "map comp_Per_Case
           (map (\<lambda>(c, p, u). \<lparr>comp_Component = c, comp_Per_Case = p, comp_UOM = u\<rparr>)
                (zip cs (zip ps us))) = ps"
    and "map comp_UOM
           (map (\<lambda>(c, p, u). \<lparr>comp_Component = c, comp_Per_Case = p, comp_UOM = u\<rparr>)
                (zip cs (zip ps us))) = us"
    and "length (map (\<lambda>(c, p, u). \<lparr>comp_Component = c, comp_Per_Case = p, comp_UOM = u\<rparr>)
                (zip cs (zip ps us))) = length cs"
proof -
  have a: "map (\<lambda>x. fst x) (zip cs (zip ps us)) = cs"
    using assms by (simp only: map_fst_zip length_zip min.idem)
  have z: "map (\<lambda>x. snd x) (zip cs (zip ps us)) = zip ps us"
    using assms by (simp only: map_snd_zip length_zip min.idem)
  have "map (\<lambda>x. fst (snd x)) (zip cs (zip ps us)) = map fst (map (\<lambda>x. snd x) (zip cs (zip ps us)))"
    by simp
  also have "\<dots> = ps" using assms by (simp only: z map_fst_zip)
  finally have b: "map (\<lambda>x. fst (snd x)) (zip cs (zip ps us)) = ps" .
  have "map (\<lambda>x. snd (snd x)) (zip cs (zip ps us)) = map snd (map (\<lambda>x. snd x) (zip cs (zip ps us)))"
    by simp
  also have "\<dots> = us" using assms by (simp only: z map_snd_zip)
  finally have c: "map (\<lambda>x. snd (snd x)) (zip cs (zip ps us)) = us" .
  show "map comp_Component
           (map (\<lambda>(c, p, u). \<lparr>comp_Component = c, comp_Per_Case = p, comp_UOM = u\<rparr>)
                (zip cs (zip ps us))) = cs"
    using a by (simp add: case_prod_beta comp_def)
  show "map comp_Per_Case
           (map (\<lambda>(c, p, u). \<lparr>comp_Component = c, comp_Per_Case = p, comp_UOM = u\<rparr>)
                (zip cs (zip ps us))) = ps"
    using b by (simp add: case_prod_beta comp_def)
  show "map comp_UOM
           (map (\<lambda>(c, p, u). \<lparr>comp_Component = c, comp_Per_Case = p, comp_UOM = u\<rparr>)
                (zip cs (zip ps us))) = us"
    using c by (simp add: case_prod_beta comp_def)
  show "length (map (\<lambda>(c, p, u). \<lparr>comp_Component = c, comp_Per_Case = p, comp_UOM = u\<rparr>)
                (zip cs (zip ps us))) = length cs"
    using assms by simp
qed

lemma read_ws_df_error:
  "read_ws_df Pi vals = Inl e \<Longrightarrow> e = ValueError_frame \<or> e = TypeError_to_numeric"
  by (auto simp: read_ws_df_def split: list.splits if_splits)

text \<open>What is loaded when both tables have been read and the schema check passes.\<close>

lemma load_frames_comps:
  assumes rf: "read_ws_df Pi vals = Inr formula"
    and req: "{''Component'', ''Per_Case''} \<subseteq> set (columns formula)"
  shows "\<exists>comps onhand.
     load_frames formula inventory = Inr (comps, OnHand onhand) \<and>
     column formula ''Component'' = Inr (map comp_Component comps) \<and>
     column formula ''Per_Case'' = Inr (map comp_Per_Case comps) \<and>
     length comps = length vals - 1 \<and>
     (if ''UOM'' \<in> set (columns formula)
      then column formula ''UOM'' = Inr (map comp_UOM comps)
      else map comp_UOM comps = map (\<lambda>c. Txt []) comps) \<and>
     (if {''Component'', ''On_Hand''} \<subseteq> set (columns inventory)
      then \<exists>ks vs. column inventory ''Component'' = Inr ks \<and> (''Component'', ks) \<in> set inventory \<and>
             column inventory ''On_Hand'' = Inr vs \<and> (''On_Hand'', vs) \<in> set inventory \<and>
             onhand = zip ks vs
      else onhand = map (\<lambda>c. (comp_Component c, Flt (Fin 0))) comps)"
proof -
  from load_frames_Inr [OF req, of inventory]
  obtain cs ps us onhand where cs: "column formula ''Component'' = Inr cs" "(''Component'', cs) \<in> set formula"
    and ps: "column formula ''Per_Case'' = Inr ps" "(''Per_Case'', ps) \<in> set formula"
    and us: "if ''UOM'' \<in> set (columns formula)
      then column formula ''UOM'' = Inr us \<and> (''UOM'', us) \<in> set formula
      else us = map (\<lambda>c. Txt []) cs"
    and oh: "if {''Component'', ''On_Hand''} \<subseteq> set (columns inventory)
      then \<exists>ks vs. column inventory ''Component'' = Inr ks \<and> (''Component'', ks) \<in> set inventory \<and>
             column inventory ''On_Hand'' = Inr vs \<and> (''On_Hand'', vs) \<in> set inventory \<and>
             onhand = zip ks vs
      else onhand = map (\<lambda>c. (c, Flt (Fin 0))) cs"
    and l: "load_frames formula inventory =
       Inr (map (\<lambda>(c, p, u). \<lparr>comp_Component = c, comp_Per_Case = p, comp_UOM = u\<rparr>)
                (zip cs (zip ps us)),
            OnHand onhand)"
    by (elim exE conjE)
  let ?comps = "map (\<lambda>(c, p, u). \<lparr>comp_Component = c, comp_Per_Case = p, comp_UOM = u\<rparr>)
                (zip cs (zip ps us))"
  have lc: "length cs = length vals - 1" and lp: "length ps = length vals - 1"
    using read_ws_df_lengths [OF rf] cs ps by blast+
  have lu: "length us = length cs"
  proof (cases "''UOM'' \<in> set (columns formula)")
    case True
    with us have "(''UOM'', us) \<in> set formula" by simp
    from read_ws_df_lengths [OF rf this] lc show ?thesis by simp
  next
    case False
    with us show ?thesis by simp
  qed
  have lp': "length ps = length cs" using lc lp by simp
  note z = zip_comps_columns [OF lp' lu]
  have u: "if ''UOM'' \<in> set (columns formula)
      then column formula ''UOM'' = Inr (map comp_UOM ?comps)
      else map comp_UOM ?comps = map (\<lambda>c. Txt []) ?comps"
  proof (cases "''UOM'' \<in> set (columns formula)")
    case True
    with us show ?thesis by (simp only: z if_True)
  next
    case False
    with us have e: "us = map (\<lambda>c. Txt []) cs" by simp
    have "map comp_UOM ?comps = us" by (rule z(3))
    also note e
    also have "map (\<lambda>c. Txt []) cs = map (\<lambda>c. Txt []) ?comps"
      using z(4) by (simp only: map_replicate_const)
    finally show ?thesis using False by (simp only: if_False)
  qed
  have o: "if {''Component'', ''On_Hand''} \<subseteq> set (columns inventory)
      then \<exists>ks vs. column inventory ''Component'' = Inr ks \<and> (''Component'', ks) \<in> set inventory \<and>
             column inventory ''On_Hand'' = Inr vs \<and> (''On_Hand'', vs) \<in> set inventory \<and>
             onhand = zip ks vs
      else onhand = map (\<lambda>c. (comp_Component c, Flt (Fin 0))) ?comps"
  proof (cases "{''Component'', ''On_Hand''} \<subseteq> set (columns inventory)")
    case True
    with oh show ?thesis by (simp only: if_True)
  next
    case False
    with oh have "onhand = map (\<lambda>c. (c, Flt (Fin 0))) cs" by (simp only: if_False)
    also have "\<dots> = map (\<lambda>c. (c, Flt (Fin 0))) (map comp_Component ?comps)" by (simp only: z)
    also have "\<dots> = map (\<lambda>c. (comp_Component c, Flt (Fin 0))) ?comps"
      by (simp only: map_map comp_def)
    finally show ?thesis using False by (simp only: if_False)
  qed
  from cs(1) have c1: "column formula ''Component'' = Inr (map comp_Component ?comps)"
    by (simp only: z)
  from ps(1) have c2: "column formula ''Per_Case'' = Inr (map comp_Per_Case ?comps)"
    by (simp only: z)
  from z(4) lc have c3: "length ?comps = length vals - 1" by simp
  from l c1 c2 c3 u o show ?thesis
    by (intro exI [where x = ?comps] exI [where x = onhand] conjI)
qed

lemmas read_defs =
  get_all_values_def fill_gaps_def formatted_def read_ws_df_def to_numeric_ignore_def
  columns_def Let_def

lemma ex_read_formula:
  "read_ws_df ex_P (get_all_values ex_R ex_formula) =
     Inr [(''Component'', [Txt ''A'', Txt ''B'']), (''Per_Case'', [Flt (Fin 2), Flt (Fin 5)])]"
  by (simp add: read_defs ex_defs upt_rec)

lemma ex_read_inventory:
  "read_ws_df ex_P (get_all_values ex_R [[Text ''Notes''], [Text ''stale'']]) =
     Inr [(''Notes'', [Txt ''stale''])]"
  by (simp add: read_defs ex_defs upt_rec)

lemma ex_read_short:
  "read_ws_df ex_P (get_all_values ex_R [[Text ''Component'']]) = Inr [(''Component'', [])]"
  "read_ws_df ex_P (get_all_values ex_R []) = Inr []"
  by (simp_all add: read_defs ex_defs upt_rec)


text \<open>
  C5 (as amended).  A load that stops with the schema error has read a FORMULA table that
  lacks Component or Per_Case.  When both worksheets have been opened and read, the load
  stops with the schema error if the FORMULA table lacks Component or Per_Case, and
  otherwise returns one component per data row of the FORMULA table, with the cells of its
  Component and Per_Case columns; UOM is optional: with the column the components have its
  cells, without it every component has the empty text as UOM.
\<close>

theorem load_schema_error:
  "(load_data Pi R FORMULA_WS INVENTORY_WS sh = Inl (SchemaError cols) \<longrightarrow>
      (\<exists>fws formula. sh FORMULA_WS = Some fws \<and>
         read_ws_df Pi (get_all_values R fws) = Inr formula \<and>
         cols = columns formula \<and> \<not> {''Component'', ''Per_Case''} \<subseteq> set cols)) \<and>
   (sh FORMULA_WS = Some fws \<and> sh INVENTORY_WS = Some iws \<and>
    read_ws_df Pi (get_all_values R fws) = Inr formula \<and>
    read_ws_df Pi (get_all_values R iws) = Inr inventory \<longrightarrow>
      (if {''Component'', ''Per_Case''} \<subseteq> set (columns formula)
       then \<exists>comps onhand.
              load_data Pi R FORMULA_WS INVENTORY_WS sh = Inr (comps, onhand) \<and>
              column formula ''Component'' = Inr (map comp_Component comps) \<and>
              column formula ''Per_Case'' = Inr (map comp_Per_Case comps) \<and>
              length comps = length (get_all_values R fws) - 1 \<and>
              (if ''UOM'' \<in> set (columns formula)
               then column formula ''UOM'' = Inr (map comp_UOM comps)
               else map comp_UOM comps = map (\<lambda>c. Txt []) comps)
       else load_data Pi R FORMULA_WS INVENTORY_WS sh = Inl (SchemaError (columns formula))))"
proof (intro conjI impI)
  assume a: "load_data Pi R FORMULA_WS INVENTORY_WS sh = Inl (SchemaError cols)"
  then obtain fws' iws' where f: "sh FORMULA_WS = Some fws'" and i: "sh INVENTORY_WS = Some iws'"
    by (auto simp: load_data_def split: option.splits)
  from a f i obtain formula' where rf: "read_ws_df Pi (get_all_values R fws') = Inr formula'"
    by (cases "read_ws_df Pi (get_all_values R fws')")
       (auto simp: load_data_def dest: read_ws_df_error)
  from a f i rf obtain inventory' where ri: "read_ws_df Pi (get_all_values R iws') = Inr inventory'"
    by (cases "read_ws_df Pi (get_all_values R iws')")
       (auto simp: load_data_def dest: read_ws_df_error)
  from a f i rf ri have l: "load_frames formula' inventory' = Inl (SchemaError cols)"
    by (simp add: load_data_def)
  have n: "\<not> {''Component'', ''Per_Case''} \<subseteq> set (columns formula')"
  proof
    assume "{''Component'', ''Per_Case''} \<subseteq> set (columns formula')"
    from load_frames_Inr [OF this, of inventory'] l show False by auto
  qed
  with l have "cols = columns formula'"
    by (simp add: load_frames_schema)
  with f rf n show "\<exists>fws formula. sh FORMULA_WS = Some fws \<and>
         read_ws_df Pi (get_all_values R fws) = Inr formula \<and>
         cols = columns formula \<and> \<not> {''Component'', ''Per_Case''} \<subseteq> set cols"
    by blast
next
  assume h: "sh FORMULA_WS = Some fws \<and> sh INVENTORY_WS = Some iws \<and>
    read_ws_df Pi (get_all_values R fws) = Inr formula \<and>
    read_ws_df Pi (get_all_values R iws) = Inr inventory"
  then have ld: "load_data Pi R FORMULA_WS INVENTORY_WS sh = load_frames formula inventory"
    by (simp add: load_data_def)
  from h have rf: "read_ws_df Pi (get_all_values R fws) = Inr formula" by simp
  show "if {''Component'', ''Per_Case''} \<subseteq> set (columns formula)
       then \<exists>comps onhand.
              load_data Pi R FORMULA_WS INVENTORY_WS sh = Inr (comps, onhand) \<and>
              column formula ''Component'' = Inr (map comp_Component comps) \<and>
              column formula ''Per_Case'' = Inr (map comp_Per_Case comps) \<and>
              length comps = length (get_all_values R fws) - 1 \<and>
              (if ''UOM'' \<in> set (columns formula)
               then column formula ''UOM'' = Inr (map comp_UOM comps)
               else map comp_UOM comps = map (\<lambda>c. Txt []) comps)
       else load_data Pi R FORMULA_WS INVENTORY_WS sh = Inl (SchemaError (columns formula))"
  proof (cases "{''Component'', ''Per_Case''} \<subseteq> set (columns formula)")
    case False
    then show ?thesis using load_frames_schema [OF False, of inventory] by (simp only: ld if_False)
  next
    case True
    from load_frames_comps [OF rf True, of inventory]
    have "\<exists>comps onhand.
              load_data Pi R FORMULA_WS INVENTORY_WS sh = Inr (comps, onhand) \<and>
              column formula ''Component'' = Inr (map comp_Component comps) \<and>
              column formula ''Per_Case'' = Inr (map comp_Per_Case comps) \<and>
              length comps = length (get_all_values R fws) - 1 \<and>
              (if ''UOM'' \<in> set (columns formula)
               then column formula ''UOM'' = Inr (map comp_UOM comps)
               else map comp_UOM comps = map (\<lambda>c. Txt []) comps)"
    proof (elim exE conjE)
      fix comps onhand
      assume l: "load_frames formula inventory = Inr (comps, OnHand onhand)"
        and c1: "column formula ''Component'' = Inr (map comp_Component comps)"
        and c2: "column formula ''Per_Case'' = Inr (map comp_Per_Case comps)"
        and c3: "length comps = length (get_all_values R fws) - 1"
        and u: "if ''UOM'' \<in> set (columns formula)
               then column formula ''UOM'' = Inr (map comp_UOM comps)
               else map comp_UOM comps = map (\<lambda>c. Txt []) comps"
      from l ld have "load_data Pi R FORMULA_WS INVENTORY_WS sh = Inr (comps, OnHand onhand)"
        by simp
      with c1 c2 c3 u show ?thesis
        by (intro exI [where x = comps] exI [where x = "OnHand onhand"] conjI)
    qed
    with True show ?thesis by (simp only: if_True)
  qed
qed

theorem load_schema_error_counterexample:
  "load_data ex_P ex_R ''FORMULA'' ''INVENTORY'' [''FORMULA'' \<mapsto> [[Text ''Component'']]] =
     Inl (WorksheetNotFound ''INVENTORY'') \<and>
   read_ws_df ex_P (get_all_values ex_R [[Text ''Component'']]) = Inr [(''Component'', [])] \<and>
   ''Per_Case'' \<notin> set (columns [(''Component'', [])])"
  by (simp add: load_data_def ex_read_short columns_def)

theorem load_schema_error_witness:
  "load_data ex_P ex_R ''FORMULA'' ''INVENTORY''
     [''FORMULA'' \<mapsto> [[Text ''Component'']], ''INVENTORY'' \<mapsto> []] =
     Inl (SchemaError [''Component'']) \<and>
   (\<exists>comps onhand. load_data ex_P ex_R ''FORMULA'' ''INVENTORY'' ex_sh = Inr (comps, onhand) \<and>
      map comp_Component comps = [Txt ''A'', Txt ''B''] \<and>
      map comp_Per_Case comps = [Flt (Fin 2), Flt (Fin 5)] \<and>
      map comp_UOM comps = [Txt [], Txt []])"
proof -
  let ?sh = "[''FORMULA'' \<mapsto> [[Text ''Component'']], ''INVENTORY'' \<mapsto> []] :: spreadsheet"
  let ?formula = "[(''Component'', [Txt ''A'', Txt ''B'']), (''Per_Case'', [Flt (Fin 2), Flt (Fin 5)])]"
  have s0: "?sh ''FORMULA'' = Some [[Text ''Component'']] \<and> ?sh ''INVENTORY'' = Some [] \<and>
      read_ws_df ex_P (get_all_values ex_R [[Text ''Component'']]) = Inr [(''Component'', [])] \<and>
      read_ws_df ex_P (get_all_values ex_R []) = Inr []"
    by (simp add: ex_read_short)
  have n0: "\<not> {''Component'', ''Per_Case''} \<subseteq> set (columns [(''Component'', [])])"
    and c0: "columns [(''Component'', [])] = [''Component'']"
    by (simp_all add: columns_def)
  from load_schema_error [of ex_P ex_R "''FORMULA''" "''INVENTORY''" ?sh "[]"
        "[[Text ''Component'']]" "[]" "[(''Component'', [])]" "[]",
        THEN conjunct2, THEN mp, OF s0]
  have one: "load_data ex_P ex_R ''FORMULA'' ''INVENTORY'' ?sh = Inl (SchemaError [''Component''])"
    using n0 by (simp only: if_False c0)
  have s: "ex_sh ''FORMULA'' = Some ex_formula \<and>
      ex_sh ''INVENTORY'' = Some [[Text ''Notes''], [Text ''stale'']] \<and>
      read_ws_df ex_P (get_all_values ex_R ex_formula) = Inr ?formula \<and>
      read_ws_df ex_P (get_all_values ex_R [[Text ''Notes''], [Text ''stale'']]) =
        Inr [(''Notes'', [Txt ''stale''])]"
    by (simp add: ex_sh_def ex_read_formula ex_read_inventory)
  have c: "{''Component'', ''Per_Case''} \<subseteq> set (columns ?formula)"
    and u: "''UOM'' \<notin> set (columns ?formula)"
    by (simp_all add: columns_def)
  have k1: "column ?formula ''Component'' = Inr [Txt ''A'', Txt ''B'']"
    and k2: "column ?formula ''Per_Case'' = Inr [Flt (Fin 2), Flt (Fin 5)]"
    by (simp_all add: column_def)
  from load_schema_error [of ex_P ex_R "''FORMULA''" "''INVENTORY''" ex_sh "[]"
        ex_formula "[[Text ''Notes''], [Text ''stale'']]" ?formula "[(''Notes'', [Txt ''stale''])]",
        THEN conjunct2, THEN mp, OF s]
  have "\<exists>comps onhand.
      load_data ex_P ex_R ''FORMULA'' ''INVENTORY'' ex_sh = Inr (comps, onhand) \<and>
      column ?formula ''Component'' = Inr (map comp_Component comps) \<and>
      column ?formula ''Per_Case'' = Inr (map comp_Per_Case comps) \<and>
      length comps = length (get_all_values ex_R ex_formula) - 1 \<and>
      (if ''UOM'' \<in> set (columns ?formula)
       then column ?formula ''UOM'' = Inr (map comp_UOM comps)
       else map comp_UOM comps = map (\<lambda>c. Txt []) comps)"
    using c by (simp only: if_True)
  then have two: "\<exists>comps onhand. load_data ex_P ex_R ''FORMULA'' ''INVENTORY'' ex_sh = Inr (comps, onhand) \<and>
      map comp_Component comps = [Txt ''A'', Txt ''B''] \<and>
      map comp_Per_Case comps = [Flt (Fin 2), Flt (Fin 5)] \<and>
      map comp_UOM comps = [Txt [], Txt []]"
  proof (elim exE conjE)
    fix comps onhand
    assume l: "load_data ex_P ex_R ''FORMULA'' ''INVENTORY'' ex_sh = Inr (comps, onhand)"
      and c1: "column ?formula ''Component'' = Inr (map comp_Component comps)"
      and c2: "column ?formula ''Per_Case'' = Inr (map comp_Per_Case comps)"
      and c3: "length comps = length (get_all_values ex_R ex_formula) - 1"
      and uo: "if ''UOM'' \<in> set (columns ?formula)
       then column ?formula ''UOM'' = Inr (map comp_UOM comps)
       else map comp_UOM comps = map (\<lambda>c. Txt []) comps"
    from c1 k1 have n1: "map comp_Component comps = [Txt ''A'', Txt ''B'']"
      by (simp only: sum.inject)
    from c2 k2 have n2: "map comp_Per_Case comps = [Flt (Fin 2), Flt (Fin 5)]"
      by (simp only: sum.inject)
    have "length (get_all_values ex_R ex_formula) = 3"
      by (simp add: get_all_values_def fill_gaps_def ex_formula_def Let_def)
    with c3 have len: "length comps = Suc (Suc 0)" by simp
    from uo u have "map comp_UOM comps = map (\<lambda>c. Txt []) comps" by (simp only: if_False)
    also have "\<dots> = replicate (length comps) (Txt [])" by (rule map_replicate_const)
    also have "\<dots> = [Txt [], Txt []]" by (simp only: len replicate.simps)
    finally have n3: "map comp_UOM comps = [Txt [], Txt []]" .
    from l n1 n2 n3 show ?thesis
      by (intro exI [where x = comps] exI [where x = onhand] conjI)
  qed
  from one two show ?thesis by (intro conjI)
qed









section \<open>Writeback replaces the table\<close>







section \<open>Writing and loading again\<close>












end
